theory Spec2Isabelle
  imports Main
begin

section \<open>Task manager command-line tool: models and command handlers\<close>

text \<open>
  The development embeds \<^verbatim>\<open>lib/models.py\<close> (classes \<^verbatim>\<open>Task\<close> and \<^verbatim>\<open>User\<close>) and the
  four command handlers of \<^verbatim>\<open>lib/cli_tool.py\<close>.

  \<^item> A Python \<^verbatim>\<open>str\<close> is a \<open>string\<close> holding its UTF-8 bytes; the glyphs of the
    messages are written out byte by byte. Encoding is injective and commutes with
    concatenation, so \<^verbatim>\<open>==\<close> on \<^verbatim>\<open>str\<close> is equality of byte strings and an f-string is
    a concatenation.
  \<^item> Objects are values: the registry owns its users and each user owns its tasks, no
    object is referenced from two places (every handler constructs a fresh \<^verbatim>\<open>User\<close> or
    \<^verbatim>\<open>Task\<close> for what it stores). A task handed out by \<^verbatim>\<open>get_task_by_title\<close> is named by
    its position in the owner's list, and mutating it in place is an update at that
    position.
  \<^item> Standard output is the list of the arguments of the \<^verbatim>\<open>print\<close> calls, in order; each
    \<^verbatim>\<open>print\<close> ends its argument with a line feed that is left implicit.
  \<^item> The module-level dictionary \<^verbatim>\<open>users\<close> is an association list in insertion order
    (a Python \<^verbatim>\<open>dict\<close> iterates in insertion order), passed to every handler and returned
    by those that change it.
\<close>

subsection \<open>Text\<close>

definition quoted :: "string \<Rightarrow> string" where
  \<comment> \<open>\<^verbatim>\<open>'{s}'\<close> inside an f-string: the text between two apostrophes (byte 0x27).\<close>
  "quoted s = [CHR 0x27] @ s @ [CHR 0x27]"

definition check_mark :: string where
  \<comment> \<open>U+2705, white heavy check mark\<close>
  "check_mark = [CHR 0xE2, CHR 0x9C, CHR 0x85]"

definition hollow_circle :: string where
  \<comment> \<open>U+2B55, heavy large circle\<close>
  "hollow_circle = [CHR 0xE2, CHR 0xAD, CHR 0x95]"

definition cross_mark :: string where
  \<comment> \<open>U+274C, cross mark\<close>
  "cross_mark = [CHR 0xE2, CHR 0x9D, CHR 0x8C]"

definition info_sign :: string where
  \<comment> \<open>U+2139 information source, followed by U+FE0F variation selector 16\<close>
  "info_sign = [CHR 0xE2, CHR 0x84, CHR 0xB9, CHR 0xEF, CHR 0xB8, CHR 0x8F]"

definition pushpin :: string where
  \<comment> \<open>U+1F4CC, pushpin\<close>
  "pushpin = [CHR 0xF0, CHR 0x9F, CHR 0x93, CHR 0x8C]"

definition bullet :: string where
  \<comment> \<open>U+2022, bullet\<close>
  "bullet = [CHR 0xE2, CHR 0x80, CHR 0xA2]"

definition line_feed :: string where
  \<comment> \<open>\<^verbatim>\<open>\n\<close> inside a string literal\<close>
  "line_feed = [CHR 0x0A]"

fun str_nat :: "nat \<Rightarrow> string" where
  \<comment> \<open>\<^verbatim>\<open>{i}\<close> of a non-negative \<^verbatim>\<open>int\<close> in an f-string: its decimal digits, no leading zero.\<close>
  "str_nat n =
     (if n < 10 then [''0123456789'' ! n]
      else str_nat (n div 10) @ [''0123456789'' ! (n mod 10)])"

declare str_nat.simps [simp del]

subsection \<open>\<^verbatim>\<open>lib/models.py\<close>: class Task\<close>

record task =
  title :: string
  completed :: bool

definition Task_init :: "string \<Rightarrow> task" where
  \<comment> \<open>\<^verbatim>\<open>Task.__init__\<close>: no check on the title.\<close>
  "Task_init t = \<lparr>title = t, completed = False\<rparr>"

definition Task_complete :: "task \<Rightarrow> task \<times> string list" where
  \<comment> \<open>\<^verbatim>\<open>Task.complete\<close>: the task after the call and what was printed.\<close>
  "Task_complete self =
     (self\<lparr>completed := True\<rparr>,
      [check_mark @ '' Task '' @ quoted (title self) @ '' completed.''])"

definition Task_str :: "task \<Rightarrow> string" where
  \<comment> \<open>\<^verbatim>\<open>Task.__str__\<close>\<close>
  "Task_str self =
     (let status = (if completed self then check_mark else hollow_circle)
      in status @ '' '' @ title self)"

subsection \<open>\<^verbatim>\<open>lib/models.py\<close>: class User\<close>

record user =
  name :: string
  tasks :: "task list"

definition User_init :: "string \<Rightarrow> user" where
  \<comment> \<open>\<^verbatim>\<open>User.__init__\<close>\<close>
  "User_init n = \<lparr>name = n, tasks = []\<rparr>"

definition User_add_task :: "user \<Rightarrow> task \<Rightarrow> user \<times> string list" where
  \<comment> \<open>\<^verbatim>\<open>User.add_task\<close>: \<^verbatim>\<open>self.tasks.append(task)\<close>, then the confirmation.\<close>
  "User_add_task self tk =
     (self\<lparr>tasks := tasks self @ [tk]\<rparr>,
      [pushpin @ '' Task '' @ quoted (title tk) @ '' added to '' @ name self @ ''.''])"

fun first_with_title :: "task list \<Rightarrow> string \<Rightarrow> nat option" where
  \<comment> \<open>The loop of \<^verbatim>\<open>get_task_by_title\<close>: the position of the task it returns at,
      \<open>None\<close> when it falls through to \<^verbatim>\<open>return None\<close>.\<close>
  "first_with_title [] t = None"
| "first_with_title (tk # rest) t =
     (if title tk = t then Some 0 else map_option Suc (first_with_title rest t))"

definition User_get_task_by_title :: "user \<Rightarrow> string \<Rightarrow> nat option" where
  \<comment> \<open>\<^verbatim>\<open>User.get_task_by_title\<close>: \<open>Some i\<close> stands for the object \<^verbatim>\<open>self.tasks[i]\<close>.\<close>
  "User_get_task_by_title self t = first_with_title (tasks self) t"

definition User_list_tasks :: "user \<Rightarrow> string list" where
  \<comment> \<open>\<^verbatim>\<open>User.list_tasks\<close>: only prints.\<close>
  "User_list_tasks self =
     (if tasks self = [] then [name self @ '' has no tasks.'']
      else [line_feed @ name self @ [CHR 0x27] @ ''s tasks:''] @
           map (\<lambda>(i, tk). ''  '' @ str_nat i @ ''. '' @ Task_str tk)
               (enumerate 1 (tasks self)))"

definition User_str :: "user \<Rightarrow> string" where
  \<comment> \<open>\<^verbatim>\<open>User.__str__\<close>\<close>
  "User_str self =
     ''User: '' @ name self @ '' ('' @ str_nat (length (tasks self)) @ '' tasks)''"

subsection \<open>\<^verbatim>\<open>lib/cli_tool.py\<close>: the registry and the handlers\<close>

type_synonym registry = "(string \<times> user) list"

definition users_get :: "registry \<Rightarrow> string \<Rightarrow> user option" where
  \<comment> \<open>\<^verbatim>\<open>users.get(key)\<close>; a stored \<^verbatim>\<open>User\<close> is always truthy, so \<^verbatim>\<open>not user\<close> holds
      exactly for \<open>None\<close>.\<close>
  "users_get users k = map_of users k"

fun users_set :: "string \<Rightarrow> user \<Rightarrow> registry \<Rightarrow> registry" where
  \<comment> \<open>\<^verbatim>\<open>users[key] = value\<close>: a new key goes to the end, a present key keeps its place.\<close>
  "users_set k v [] = [(k, v)]"
| "users_set k v (p # ps) = (if fst p = k then (k, v) # ps else p # users_set k v ps)"

definition add_task :: "string \<Rightarrow> string \<Rightarrow> registry \<Rightarrow> registry \<times> string list" where
  \<comment> \<open>\<^verbatim>\<open>add_task(args)\<close> with \<^verbatim>\<open>args.user\<close>, \<^verbatim>\<open>args.title\<close>. The last \<open>users_set\<close> is the
      in-place change of the stored user by \<^verbatim>\<open>user.add_task(task)\<close>.\<close>
  "add_task arg_user arg_title users =
     (let (usr, users1) =
            (case users_get users arg_user of
               None \<Rightarrow> (let usr = User_init arg_user in (usr, users_set arg_user usr users))
             | Some usr \<Rightarrow> (usr, users));
          tk = Task_init arg_title;
          (usr', out) = User_add_task usr tk
      in (users_set arg_user usr' users1, out))"

definition complete_task :: "string \<Rightarrow> string \<Rightarrow> registry \<Rightarrow> registry \<times> string list" where
  \<comment> \<open>\<^verbatim>\<open>complete_task(args)\<close>. The \<open>users_set\<close> is the in-place change of the found task
      by \<^verbatim>\<open>task.complete()\<close>.\<close>
  "complete_task arg_user arg_title users =
     (case users_get users arg_user of
        None \<Rightarrow> (users, [cross_mark @ '' User '' @ quoted arg_user @ '' not found.''])
      | Some usr \<Rightarrow>
          (case User_get_task_by_title usr arg_title of
             None \<Rightarrow>
               (users, [cross_mark @ '' Task '' @ quoted arg_title @ '' not found for ''
                         @ arg_user @ ''.''])
           | Some i \<Rightarrow>
               (let tk = tasks usr ! i in
                if completed tk then
                  (users, [info_sign @ ''  Task '' @ quoted arg_title
                            @ '' is already completed.''])
                else
                  (let (tk', out) = Task_complete tk
                   in (users_set arg_user (usr\<lparr>tasks := (tasks usr)[i := tk']\<rparr>) users,
                       out)))))"

definition list_tasks :: "string \<Rightarrow> registry \<Rightarrow> string list" where
  \<comment> \<open>\<^verbatim>\<open>list_tasks(args)\<close>: only prints.\<close>
  "list_tasks arg_user users =
     (case users_get users arg_user of
        None \<Rightarrow> [cross_mark @ '' User '' @ quoted arg_user @ '' not found.'']
      | Some usr \<Rightarrow> User_list_tasks usr)"

definition list_users :: "registry \<Rightarrow> string list" where
  \<comment> \<open>\<^verbatim>\<open>list_users(args)\<close>: only prints, iterating \<^verbatim>\<open>users.items()\<close> in insertion order.\<close>
  "list_users users =
     (if users = [] then [''No users found.'']
      else [line_feed @ ''All users:''] @
           map (\<lambda>(username, usr). ''  '' @ bullet @ '' '' @ User_str usr) users)"

datatype command =
    AddTask string string
  | CompleteTask string string
  | ListTasks string
  | ListUsers

fun dispatch :: "command \<Rightarrow> registry \<Rightarrow> registry \<times> string list" where
  \<comment> \<open>\<^verbatim>\<open>args.func(args)\<close> in \<^verbatim>\<open>main\<close>: the handler that the subcommand's parser set as
      \<^verbatim>\<open>func\<close>, run on the registry; the two listing handlers leave it as it is.\<close>
  "dispatch (AddTask u t) users = add_task u t users"
| "dispatch (CompleteTask u t) users = complete_task u t users"
| "dispatch (ListTasks u) users = (users, list_tasks u users)"
| "dispatch ListUsers users = (users, list_users users)"

definition names_match :: "registry \<Rightarrow> bool" where
  \<comment> \<open>Every entry is keyed by the name of its user, as \<^verbatim>\<open>users[args.user] = User(args.user)\<close>
      stores it.\<close>
  "names_match users = list_all (\<lambda>(k, usr). name usr = k) users"

section \<open>Properties\<close>

subsection \<open>Decimal digits\<close>

lemma str_nat_digit: "n < 10 \<Longrightarrow> str_nat n = [''0123456789'' ! n]"
  by (subst str_nat.simps) simp

lemma digit_value: "d < 10 \<Longrightarrow> (of_char (''0123456789'' ! d) :: nat) = 48 + d"
proof -
  assume "d < 10"
  then have "d \<in> {0, 1, 2, 3, 4, 5, 6, 7, 8, 9}" by auto
  then show ?thesis by auto
qed

text \<open>Reading the digits of \<open>str_nat n\<close> back gives \<open>n\<close>.\<close>

lemma str_nat_value: "foldl (\<lambda>a c. 10 * a + (of_char c - 48)) 0 (str_nat n) = n"
proof (induction n rule: str_nat.induct)
  case (1 n)
  show ?case
  proof (cases "n < 10")
    case True
    then show ?thesis by (subst str_nat.simps) (simp add: digit_value)
  next
    case False
    with 1 show ?thesis by (subst str_nat.simps) (simp add: digit_value)
  qed
qed

subsection \<open>Task\<close>

text \<open>
  Claim C6. For every task, \<^verbatim>\<open>complete()\<close> establishes \<open>completed\<close>, and a second call
  leaves the task (title and flag) exactly as the first call left it.
\<close>

theorem Task_complete_idempotent:
  "completed (fst (Task_complete tk)) \<and>
   fst (Task_complete (fst (Task_complete tk))) = fst (Task_complete tk) \<and>
   title (fst (Task_complete (fst (Task_complete tk)))) = title tk"
  by (simp add: Task_complete_def)

subsection \<open>Lookup by title\<close>

lemma first_with_title_None: "first_with_title xs t = None \<longleftrightarrow> t \<notin> title ` set xs"
  by (induction xs) auto

lemma first_with_title_Some:
  "first_with_title xs t = Some i \<Longrightarrow>
     i < length xs \<and> title (xs ! i) = t \<and> (\<forall>j<i. title (xs ! j) \<noteq> t)"
proof (induction xs arbitrary: i)
  case Nil
  then show ?case by simp
next
  case (Cons x xs)
  show ?case
  proof (cases "title x = t")
    case True
    with Cons.prems show ?thesis by simp
  next
    case False
    with Cons.prems obtain k where k: "first_with_title xs t = Some k" "i = Suc k"
      by auto
    from Cons.IH[OF k(1)] False k(2) show ?thesis
      by (auto simp: less_Suc_eq_0_disj)
  qed
qed

lemma first_with_title_append:
  "first_with_title (xs @ ys) t =
     (case first_with_title xs t of
        Some i \<Rightarrow> Some i
      | None \<Rightarrow> map_option (\<lambda>i. length xs + i) (first_with_title ys t))"
proof (induction xs)
  case Nil
  show ?case by (cases "first_with_title ys t") simp_all
next
  case (Cons x xs)
  then show ?case
    by (cases "first_with_title ys t") (auto split: option.splits)
qed

lemma first_with_title_find:
  "map_option (\<lambda>i. xs ! i) (first_with_title xs t) = find (\<lambda>tk. title tk = t) xs"
  by (induction xs) (auto simp: option.map_comp comp_def)

lemma first_with_title_takeWhile:
  "first_with_title xs t = Some i \<Longrightarrow> i = length (takeWhile (\<lambda>tk. title tk \<noteq> t) xs)"
  by (induction xs arbitrary: i) (auto split: if_splits)

text \<open>
  Claim C5. \<^verbatim>\<open>get_task_by_title\<close> returns the first task of the user's list, in add
  order, whose title equals the query: the task at the returned position has the queried
  title and no task before it has. It returns \<open>None\<close>, and raises nothing, exactly when no
  task has that title. When two tasks of one title are added to a user who had none of
  that title, the one added first is returned.
\<close>

theorem get_task_by_title_first:
  "(case User_get_task_by_title usr q of
      None \<Rightarrow> q \<notin> title ` set (tasks usr)
    | Some i \<Rightarrow> i < length (tasks usr) \<and> title (tasks usr ! i) = q \<and>
               (\<forall>j<i. title (tasks usr ! j) \<noteq> q)) \<and>
   (q \<notin> title ` set (tasks usr) \<longrightarrow>
      User_get_task_by_title
        (fst (User_add_task (fst (User_add_task usr (Task_init q))) (Task_init q))) q
      = Some (length (tasks usr)))"
proof -
  have a: "case User_get_task_by_title usr q of
      None \<Rightarrow> q \<notin> title ` set (tasks usr)
    | Some i \<Rightarrow> i < length (tasks usr) \<and> title (tasks usr ! i) = q \<and>
               (\<forall>j<i. title (tasks usr ! j) \<noteq> q)"
    using first_with_title_Some[of "tasks usr" q] first_with_title_None[of "tasks usr" q]
    by (auto simp: User_get_task_by_title_def split: option.splits)
  have b: "q \<notin> title ` set (tasks usr) \<longrightarrow>
      User_get_task_by_title
        (fst (User_add_task (fst (User_add_task usr (Task_init q))) (Task_init q))) q
      = Some (length (tasks usr))"
    using first_with_title_None[of "tasks usr" q]
    by (auto simp: User_get_task_by_title_def User_add_task_def Task_init_def
        first_with_title_append split: option.splits)
  from a b show ?thesis by blast
qed

theorem get_task_by_title_first_witness:
  "User_get_task_by_title
     \<lparr>name = ''Charlie'', tasks = [\<lparr>title = ''Task 1'', completed = False\<rparr>,
        \<lparr>title = ''Task 2'', completed = True\<rparr>, \<lparr>title = ''Task 2'', completed = False\<rparr>]\<rparr>
     ''Task 2'' = Some 1 \<and>
   ''Task 3'' \<notin> title ` set [\<lparr>title = ''Task 1'', completed = False\<rparr>] \<and>
   User_get_task_by_title
     (fst (User_add_task
        (fst (User_add_task
           \<lparr>name = ''Charlie'', tasks = [\<lparr>title = ''Task 1'', completed = False\<rparr>]\<rparr>
           (Task_init ''Task 3'')))
        (Task_init ''Task 3'')))
     ''Task 3'' = Some 1"
proof -
  let ?three = "\<lparr>name = ''Charlie'', tasks = [\<lparr>title = ''Task 1'', completed = False\<rparr>,
        \<lparr>title = ''Task 2'', completed = True\<rparr>, \<lparr>title = ''Task 2'', completed = False\<rparr>]\<rparr>"
  from get_task_by_title_first [where usr = ?three and q = "''Task 2''"]
  have "case User_get_task_by_title ?three ''Task 2'' of
          None \<Rightarrow> ''Task 2'' \<notin> title ` set (tasks ?three)
        | Some i \<Rightarrow> i < length (tasks ?three) \<and> title (tasks ?three ! i) = ''Task 2'' \<and>
                   (\<forall>j<i. title (tasks ?three ! j) \<noteq> ''Task 2'')"
    by (rule conjunct1)
  then obtain i where i: "User_get_task_by_title ?three ''Task 2'' = Some i"
      "i < 3" "title (tasks ?three ! i) = ''Task 2''"
      "\<forall>j<i. title (tasks ?three ! j) \<noteq> ''Task 2''"
    by (cases "User_get_task_by_title ?three ''Task 2''") auto
  have "i = 1"
  proof -
    from i(2) have "i = 0 \<or> i = 1 \<or> i = 2" by auto
    with i(3) i(4)[rule_format, of 1] show ?thesis by auto
  qed
  with i(1) have first: "User_get_task_by_title ?three ''Task 2'' = Some 1" by simp
  from first
    get_task_by_title_first [where q = "''Task 3''"
      and usr = "\<lparr>name = ''Charlie'', tasks = [\<lparr>title = ''Task 1'', completed = False\<rparr>]\<rparr>"]
  show ?thesis by simp
qed

subsection \<open>The registry as a dictionary\<close>

lemma users_get_set: "users_get (users_set k v reg) k' = (if k' = k then Some v else users_get reg k')"
  by (induction reg) (auto simp: users_get_def)

lemma keys_users_set:
  "map fst (users_set k v reg) = (if k \<in> set (map fst reg) then map fst reg else map fst reg @ [k])"
  by (induction reg) auto

lemma users_get_None: "users_get reg k = None \<longleftrightarrow> k \<notin> set (map fst reg)"
  by (simp add: users_get_def map_of_eq_None_iff)

lemma users_get_Some_key: "users_get reg k = Some v \<Longrightarrow> k \<in> set (map fst reg)"
  using users_get_None[of reg k] by auto

lemma names_match_get: "names_match reg \<Longrightarrow> users_get reg k = Some usr \<Longrightarrow> name usr = k"
  by (auto simp: names_match_def users_get_def list_all_iff dest!: map_of_SomeD)

lemma names_match_set: "names_match reg \<Longrightarrow> name v = k \<Longrightarrow> names_match (users_set k v reg)"
  by (induction reg) (auto simp: names_match_def)

subsection \<open>The handlers, branch by branch\<close>

lemma add_task_eq:
  "add_task u t reg =
     (case users_get reg u of
        None \<Rightarrow> (reg @ [(u, \<lparr>name = u, tasks = [\<lparr>title = t, completed = False\<rparr>]\<rparr>)],
                 [pushpin @ '' Task '' @ quoted t @ '' added to '' @ u @ ''.''])
      | Some usr \<Rightarrow> (users_set u (usr\<lparr>tasks := tasks usr @ [\<lparr>title = t, completed = False\<rparr>]\<rparr>) reg,
                 [pushpin @ '' Task '' @ quoted t @ '' added to '' @ name usr @ ''.'']))"
proof (cases "users_get reg u")
  case None
  have app: "\<And>v w. u \<notin> set (map fst reg) \<Longrightarrow> users_set u w (users_set u v reg) = reg @ [(u, w)]"
    by (induction reg) auto
  from None have "u \<notin> set (map fst reg)" by (simp add: users_get_None)
  with None app show ?thesis
    by (simp add: add_task_def User_init_def Task_init_def User_add_task_def Let_def)
next
  case (Some usr)
  then show ?thesis
    by (simp add: add_task_def Task_init_def User_add_task_def Let_def)
qed

lemma fst_add_task:
  "fst (add_task u t reg) =
     users_set u (case users_get reg u of
                    None \<Rightarrow> \<lparr>name = u, tasks = [\<lparr>title = t, completed = False\<rparr>]\<rparr>
                  | Some usr \<Rightarrow> usr\<lparr>tasks := tasks usr @ [\<lparr>title = t, completed = False\<rparr>]\<rparr>) reg"
proof (cases "users_get reg u")
  case None
  have "\<And>w. u \<notin> set (map fst reg) \<Longrightarrow> users_set u w reg = reg @ [(u, w)]"
    by (induction reg) auto
  with None users_get_None[of reg u] show ?thesis by (simp add: add_task_eq)
next
  case (Some usr)
  then show ?thesis by (simp add: add_task_eq)
qed

lemma complete_task_eq:
  "complete_task u t reg =
     (case users_get reg u of
        None \<Rightarrow> (reg, [cross_mark @ '' User '' @ quoted u @ '' not found.''])
      | Some usr \<Rightarrow>
          (case first_with_title (tasks usr) t of
             None \<Rightarrow> (reg, [cross_mark @ '' Task '' @ quoted t @ '' not found for '' @ u @ ''.''])
           | Some i \<Rightarrow>
               if completed (tasks usr ! i)
               then (reg, [info_sign @ ''  Task '' @ quoted t @ '' is already completed.''])
               else (users_set u (usr\<lparr>tasks := (tasks usr)[i := (tasks usr ! i)\<lparr>completed := True\<rparr>]\<rparr>) reg,
                     [check_mark @ '' Task '' @ quoted t @ '' completed.''])))"
  using first_with_title_Some[of _ t]
  by (auto simp: complete_task_def User_get_task_by_title_def Task_complete_def Let_def
      split: option.splits)

lemma keys_dispatch:
  "map fst (fst (dispatch c reg)) =
     (case c of
        AddTask u t \<Rightarrow> if u \<in> set (map fst reg) then map fst reg else map fst reg @ [u]
      | _ \<Rightarrow> map fst reg)"
proof (cases c)
  case (AddTask u t)
  show ?thesis
  proof (cases "users_get reg u")
    case None
    with AddTask show ?thesis
      using users_get_None[of reg u] by (simp add: add_task_eq del: set_map)
  next
    case (Some usr)
    with AddTask users_get_Some_key[OF Some] show ?thesis
      by (simp add: add_task_eq keys_users_set del: set_map)
  qed
next
  case (CompleteTask u t)
  show ?thesis
  proof (cases "users_get reg u")
    case None
    with CompleteTask show ?thesis by (simp add: complete_task_eq)
  next
    case (Some usr)
    with CompleteTask users_get_Some_key[OF Some] show ?thesis
      by (simp add: complete_task_eq keys_users_set split: option.splits del: set_map)
  qed
qed simp_all

lemma map_title_complete:
  "map title (xs[i := (xs ! i)\<lparr>completed := True\<rparr>]) = map title xs"
  by (induction xs arbitrary: i) (auto split: nat.splits)

lemma dispatch_keeps_user:
  assumes "users_get reg u = Some usr"
  shows "\<exists>usr'. users_get (fst (dispatch c reg)) u = Some usr' \<and> name usr' = name usr \<and>
                map title (take (length (tasks usr)) (tasks usr')) = map title (tasks usr)"
proof (cases c)
  case (AddTask u' t')
  with assms show ?thesis
    by (cases "u' = u") (simp_all add: fst_add_task users_get_set)
next
  case (CompleteTask u' t')
  with assms show ?thesis
    by (cases "u' = u")
       (auto simp: complete_task_eq users_get_set map_title_complete split: option.splits)
next
  case (ListTasks u')
  with assms show ?thesis by simp
next
  case ListUsers
  with assms show ?thesis by simp
qed

text \<open>
  Keys and names agree in the empty registry and every command keeps them in agreement,
  so they agree in every registry that commands build from the empty one.
\<close>

lemma names_match_empty: "names_match []"
  by (simp add: names_match_def)

lemma names_match_dispatch:
  assumes "names_match reg"
  shows "names_match (fst (dispatch c reg))"
proof (cases c)
  case (AddTask u t)
  with assms names_match_get[OF assms, of u] show ?thesis
    by (auto simp: fst_add_task intro!: names_match_set split: option.splits)
next
  case (CompleteTask u t)
  with assms names_match_get[OF assms, of u] show ?thesis
    by (auto simp: complete_task_eq intro!: names_match_set split: option.splits)
next
  case (ListTasks u)
  with assms show ?thesis by simp
next
  case ListUsers
  with assms show ?thesis by simp
qed

subsection \<open>complete-task\<close>

text \<open>
  Claim C1. \<^verbatim>\<open>complete_task\<close> on any registry and any user and title: when the user is
  not a key of the registry it prints the user-not-found line and changes nothing; when
  the user has no task of that title it prints the task-not-found line and changes
  nothing; when the first task of that title is completed already it prints the
  already-completed line and changes nothing; otherwise it sets the \<open>completed\<close> flag of
  that task, changes nothing else, and prints the completed line.
\<close>

theorem complete_task_behaviour:
  "(u \<notin> set (map fst reg) \<longrightarrow>
      complete_task u t reg = (reg, [cross_mark @ '' User '' @ quoted u @ '' not found.''])) \<and>
   (users_get reg u = Some usr \<and> t \<notin> title ` set (tasks usr) \<longrightarrow>
      complete_task u t reg =
        (reg, [cross_mark @ '' Task '' @ quoted t @ '' not found for '' @ u @ ''.''])) \<and>
   (users_get reg u = Some usr \<and> find (\<lambda>x. title x = t) (tasks usr) = Some tk \<and> completed tk \<longrightarrow>
      complete_task u t reg =
        (reg, [info_sign @ ''  Task '' @ quoted t @ '' is already completed.''])) \<and>
   (users_get reg u = Some usr \<and> find (\<lambda>x. title x = t) (tasks usr) = Some tk \<and> \<not> completed tk \<longrightarrow>
      complete_task u t reg =
        (users_set u
           (usr\<lparr>tasks := (tasks usr)[length (takeWhile (\<lambda>x. title x \<noteq> t) (tasks usr))
                                      := tk\<lparr>completed := True\<rparr>]\<rparr>) reg,
         [check_mark @ '' Task '' @ quoted t @ '' completed.'']))"
proof -
  have none: "first_with_title (tasks usr) t = None" if "t \<notin> title ` set (tasks usr)"
    using that by (simp add: first_with_title_None)
  have some: "\<exists>i. first_with_title (tasks usr) t = Some i \<and> tasks usr ! i = tk \<and>
                i = length (takeWhile (\<lambda>x. title x \<noteq> t) (tasks usr))"
    if "find (\<lambda>x. title x = t) (tasks usr) = Some tk"
  proof -
    from that first_with_title_find[of "tasks usr" t]
    obtain i where i: "first_with_title (tasks usr) t = Some i" "tasks usr ! i = tk"
      by (cases "first_with_title (tasks usr) t") auto
    with first_with_title_takeWhile[OF i(1)] show ?thesis by simp
  qed
  show ?thesis
    using none some
    by (auto simp: complete_task_eq users_get_None[symmetric] simp del: set_map)
qed

theorem complete_task_behaviour_witness:
  "complete_task ''Eve'' ''Deploy''
     [(''Bob'', \<lparr>name = ''Bob'', tasks = [\<lparr>title = ''Deploy'', completed = False\<rparr>,
                                        \<lparr>title = ''Ship'', completed = True\<rparr>]\<rparr>)]
   = ([(''Bob'', \<lparr>name = ''Bob'', tasks = [\<lparr>title = ''Deploy'', completed = False\<rparr>,
                                          \<lparr>title = ''Ship'', completed = True\<rparr>]\<rparr>)],
      [cross_mark @ '' User '' @ quoted ''Eve'' @ '' not found.'']) \<and>
   complete_task ''Bob'' ''Test''
     [(''Bob'', \<lparr>name = ''Bob'', tasks = [\<lparr>title = ''Deploy'', completed = False\<rparr>,
                                        \<lparr>title = ''Ship'', completed = True\<rparr>]\<rparr>)]
   = ([(''Bob'', \<lparr>name = ''Bob'', tasks = [\<lparr>title = ''Deploy'', completed = False\<rparr>,
                                          \<lparr>title = ''Ship'', completed = True\<rparr>]\<rparr>)],
      [cross_mark @ '' Task '' @ quoted ''Test'' @ '' not found for Bob.'']) \<and>
   complete_task ''Bob'' ''Ship''
     [(''Bob'', \<lparr>name = ''Bob'', tasks = [\<lparr>title = ''Deploy'', completed = False\<rparr>,
                                        \<lparr>title = ''Ship'', completed = True\<rparr>]\<rparr>)]
   = ([(''Bob'', \<lparr>name = ''Bob'', tasks = [\<lparr>title = ''Deploy'', completed = False\<rparr>,
                                          \<lparr>title = ''Ship'', completed = True\<rparr>]\<rparr>)],
      [info_sign @ ''  Task '' @ quoted ''Ship'' @ '' is already completed.'']) \<and>
   complete_task ''Bob'' ''Deploy''
     [(''Bob'', \<lparr>name = ''Bob'', tasks = [\<lparr>title = ''Deploy'', completed = False\<rparr>,
                                        \<lparr>title = ''Ship'', completed = True\<rparr>]\<rparr>)]
   = ([(''Bob'', \<lparr>name = ''Bob'', tasks = [\<lparr>title = ''Deploy'', completed = True\<rparr>,
                                          \<lparr>title = ''Ship'', completed = True\<rparr>]\<rparr>)],
      [check_mark @ '' Task '' @ quoted ''Deploy'' @ '' completed.''])"
  using
    complete_task_behaviour [where u = "''Eve''" and t = "''Deploy''" and reg = "[(''Bob'', \<lparr>name = ''Bob'', tasks = [\<lparr>title = ''Deploy'', completed = False\<rparr>, \<lparr>title = ''Ship'', completed = True\<rparr>]\<rparr>)]"]
    complete_task_behaviour [where u = "''Bob''" and t = "''Test''" and reg = "[(''Bob'', \<lparr>name = ''Bob'', tasks = [\<lparr>title = ''Deploy'', completed = False\<rparr>, \<lparr>title = ''Ship'', completed = True\<rparr>]\<rparr>)]"
      and usr = "\<lparr>name = ''Bob'', tasks = [\<lparr>title = ''Deploy'', completed = False\<rparr>, \<lparr>title = ''Ship'', completed = True\<rparr>]\<rparr>"]
    complete_task_behaviour [where u = "''Bob''" and t = "''Ship''" and reg = "[(''Bob'', \<lparr>name = ''Bob'', tasks = [\<lparr>title = ''Deploy'', completed = False\<rparr>, \<lparr>title = ''Ship'', completed = True\<rparr>]\<rparr>)]"
      and usr = "\<lparr>name = ''Bob'', tasks = [\<lparr>title = ''Deploy'', completed = False\<rparr>, \<lparr>title = ''Ship'', completed = True\<rparr>]\<rparr>"
      and tk = "\<lparr>title = ''Ship'', completed = True\<rparr>"]
    complete_task_behaviour [where u = "''Bob''" and t = "''Deploy''" and reg = "[(''Bob'', \<lparr>name = ''Bob'', tasks = [\<lparr>title = ''Deploy'', completed = False\<rparr>, \<lparr>title = ''Ship'', completed = True\<rparr>]\<rparr>)]"
      and usr = "\<lparr>name = ''Bob'', tasks = [\<lparr>title = ''Deploy'', completed = False\<rparr>, \<lparr>title = ''Ship'', completed = True\<rparr>]\<rparr>"
      and tk = "\<lparr>title = ''Deploy'', completed = False\<rparr>"]
  by (simp add: users_get_def)

text \<open>
  Claim C4. \<^verbatim>\<open>complete_task\<close> for a user who is not in the registry returns the registry as
  it was: no user is created, no name, task list or task is changed.
\<close>

theorem complete_task_unknown_user_atomic:
  "u \<notin> set (map fst reg) \<Longrightarrow> fst (complete_task u t reg) = reg"
  by (simp add: complete_task_eq users_get_None[symmetric] del: set_map)

theorem complete_task_unknown_user_atomic_witness:
  "''Eve'' \<notin> set (map fst [(''Bob'', \<lparr>name = ''Bob'', tasks = [\<lparr>title = ''Deploy'', completed = False\<rparr>]\<rparr>)]) \<and>
   fst (complete_task ''Eve'' ''Deploy''
          [(''Bob'', \<lparr>name = ''Bob'', tasks = [\<lparr>title = ''Deploy'', completed = False\<rparr>]\<rparr>)])
   = [(''Bob'', \<lparr>name = ''Bob'', tasks = [\<lparr>title = ''Deploy'', completed = False\<rparr>]\<rparr>)]"
  using complete_task_unknown_user_atomic [where u = "''Eve''" and t = "''Deploy''"
      and reg = "[(''Bob'', \<lparr>name = ''Bob'', tasks = [\<lparr>title = ''Deploy'', completed = False\<rparr>]\<rparr>)]"]
  by simp

subsection \<open>add-task\<close>

text \<open>
  Claim C2. \<^verbatim>\<open>add_task\<close> always succeeds. On a registry whose entries are keyed by their
  users' names, the registry afterwards holds under the given user name a user of that
  name whose tasks are the previous ones (none for a new user) followed by one new task
  with the given title and \<open>completed = False\<close>; the other entries are untouched, a
  new user name goes to the end of the registry and a present one keeps its place; and the
  confirmation line with the title and the user name is printed.
\<close>

theorem add_task_always_succeeds:
  assumes "names_match reg"
  shows "users_get (fst (add_task u t reg)) u =
           Some \<lparr>name = u,
                 tasks = (case users_get reg u of None \<Rightarrow> [] | Some usr \<Rightarrow> tasks usr)
                         @ [\<lparr>title = t, completed = False\<rparr>]\<rparr> \<and>
         (\<forall>k. k \<noteq> u \<longrightarrow> users_get (fst (add_task u t reg)) k = users_get reg k) \<and>
         map fst (fst (add_task u t reg)) =
           (if u \<in> set (map fst reg) then map fst reg else map fst reg @ [u]) \<and>
         snd (add_task u t reg) = [pushpin @ '' Task '' @ quoted t @ '' added to '' @ u @ ''.'']"
proof (cases "users_get reg u")
  case None
  then have "u \<notin> set (map fst reg)" by (simp add: users_get_None)
  with None show ?thesis
    by (auto simp: add_task_eq users_get_def map_add_def split: option.splits)
next
  case (Some usr)
  with assms have n: "name usr = u" by (rule names_match_get)
  from Some have "u \<in> set (map fst reg)" by (rule users_get_Some_key)
  with Some n show ?thesis
    by (simp add: add_task_eq users_get_set keys_users_set)
qed

theorem add_task_always_succeeds_witness:
  "names_match [] \<and>
   users_get (fst (add_task ''Alice'' ''Write unit tests'' [])) ''Alice'' =
     Some \<lparr>name = ''Alice'', tasks = [\<lparr>title = ''Write unit tests'', completed = False\<rparr>]\<rparr> \<and>
   map fst (fst (add_task ''Alice'' ''Write unit tests'' [])) = [''Alice''] \<and>
   snd (add_task ''Alice'' ''Write unit tests'' []) =
     [pushpin @ '' Task '' @ quoted ''Write unit tests'' @ '' added to Alice.''] \<and>
   names_match [(''Alice'', \<lparr>name = ''Alice'', tasks = [\<lparr>title = ''Write unit tests'', completed = False\<rparr>]\<rparr>)] \<and>
   users_get (fst (add_task ''Alice'' ''Review code''
       [(''Alice'', \<lparr>name = ''Alice'', tasks = [\<lparr>title = ''Write unit tests'', completed = False\<rparr>]\<rparr>)]))
     ''Alice'' =
     Some \<lparr>name = ''Alice'', tasks = [\<lparr>title = ''Write unit tests'', completed = False\<rparr>,
                                     \<lparr>title = ''Review code'', completed = False\<rparr>]\<rparr>"
proof -
  have e: "names_match []" by (simp add: names_match_def)
  have a: "names_match [(''Alice'', \<lparr>name = ''Alice'', tasks = [\<lparr>title = ''Write unit tests'', completed = False\<rparr>]\<rparr>)]"
    by (simp add: names_match_def)
  show ?thesis
    using e a
      add_task_always_succeeds [OF e, where u = "''Alice''" and t = "''Write unit tests''"]
      add_task_always_succeeds [OF a, where u = "''Alice''" and t = "''Review code''"]
    by (simp add: users_get_def)
qed

text \<open>
  Claim C9, as stated: creating a task fails on an empty title, so no stored task has an
  empty title. \<^verbatim>\<open>Task.__init__\<close> and \<^verbatim>\<open>add_task\<close> check nothing: from the empty registry,
  adding a task with the empty title to Alice stores it.
\<close>

theorem empty_title_accepted:
  "Task_init '''' = \<lparr>title = '''', completed = False\<rparr> \<and>
   fst (add_task ''Alice'' '''' []) =
     [(''Alice'', \<lparr>name = ''Alice'', tasks = [\<lparr>title = '''', completed = False\<rparr>]\<rparr>)]"
  by (simp add: add_task_eq Task_init_def users_get_def)

text \<open>
  Claim C9, amended. Creating a task never fails, whatever the title, the empty one
  included: the task has the given title and is not completed, and \<^verbatim>\<open>add_task\<close> stores it
  as the last task of the user.
\<close>

theorem task_creation_total:
  "title (Task_init t) = t \<and> \<not> completed (Task_init t) \<and>
   (\<exists>usr. users_get (fst (add_task u t reg)) u = Some usr \<and>
          last (tasks usr) = \<lparr>title = t, completed = False\<rparr>)"
  by (simp add: fst_add_task users_get_set Task_init_def split: option.splits)

subsection \<open>Listings\<close>

lemma User_list_tasks_nth:
  assumes "i < length (tasks usr)"
  shows "User_list_tasks usr ! Suc i =
           ''  '' @ str_nat (Suc i) @ ''. '' @ Task_str (tasks usr ! i)"
proof -
  from assms have ne: "tasks usr \<noteq> []" by auto
  from assms have "enumerate 1 (tasks usr) ! i = (Suc i, tasks usr ! i)"
    by (simp add: nth_enumerate_eq)
  with assms ne show ?thesis
    by (simp add: User_list_tasks_def)
qed

text \<open>
  Claim C3. For a user in the registry, \<^verbatim>\<open>list_tasks\<close> prints the no-tasks line with the
  user's name when the user has no task. Otherwise it prints the header with the user's
  name (after a line feed), then one line for each task in add order: two spaces, the
  position counted from 1, a full stop, a space, the check mark for a completed task and
  the circle for an open one, a space, the title.
\<close>

theorem list_tasks_output:
  assumes "users_get reg u = Some usr"
  shows "(tasks usr = [] \<longrightarrow> list_tasks u reg = [name usr @ '' has no tasks.'']) \<and>
         (tasks usr \<noteq> [] \<longrightarrow>
            length (list_tasks u reg) = Suc (length (tasks usr)) \<and>
            list_tasks u reg ! 0 = line_feed @ name usr @ [CHR 0x27] @ ''s tasks:'' \<and>
            (\<forall>i<length (tasks usr).
               list_tasks u reg ! Suc i =
                 ''  '' @ str_nat (Suc i) @ ''. '' @
                 (if completed (tasks usr ! i) then check_mark else hollow_circle) @
                 '' '' @ title (tasks usr ! i)))"
proof -
  have l: "list_tasks u reg = User_list_tasks usr"
    using assms by (simp add: list_tasks_def)
  have a: "tasks usr = [] \<longrightarrow> User_list_tasks usr = [name usr @ '' has no tasks.'']"
    by (simp add: User_list_tasks_def)
  have b: "tasks usr \<noteq> [] \<longrightarrow> length (User_list_tasks usr) = Suc (length (tasks usr))"
    by (simp add: User_list_tasks_def)
  have c: "tasks usr \<noteq> [] \<longrightarrow>
             User_list_tasks usr ! 0 = line_feed @ name usr @ [CHR 0x27] @ ''s tasks:''"
    by (simp add: User_list_tasks_def)
  have d: "\<forall>i<length (tasks usr).
             User_list_tasks usr ! Suc i =
               ''  '' @ str_nat (Suc i) @ ''. '' @
               (if completed (tasks usr ! i) then check_mark else hollow_circle) @
               '' '' @ title (tasks usr ! i)"
    by (simp add: User_list_tasks_nth Task_str_def)
  from a b c d show ?thesis unfolding l by blast
qed

theorem list_tasks_output_witness:
  "users_get [(''Emma'', \<lparr>name = ''Emma'', tasks = []\<rparr>),
              (''Alice'', \<lparr>name = ''Alice'',
                 tasks = [\<lparr>title = ''Write unit tests'', completed = False\<rparr>,
                          \<lparr>title = ''Review code'', completed = True\<rparr>]\<rparr>)] ''Alice''
     = Some \<lparr>name = ''Alice'',
             tasks = [\<lparr>title = ''Write unit tests'', completed = False\<rparr>,
                      \<lparr>title = ''Review code'', completed = True\<rparr>]\<rparr> \<and>
   list_tasks ''Emma''
     [(''Emma'', \<lparr>name = ''Emma'', tasks = []\<rparr>),
      (''Alice'', \<lparr>name = ''Alice'',
         tasks = [\<lparr>title = ''Write unit tests'', completed = False\<rparr>,
                  \<lparr>title = ''Review code'', completed = True\<rparr>]\<rparr>)]
     = [''Emma has no tasks.''] \<and>
   list_tasks ''Alice''
     [(''Emma'', \<lparr>name = ''Emma'', tasks = []\<rparr>),
      (''Alice'', \<lparr>name = ''Alice'',
         tasks = [\<lparr>title = ''Write unit tests'', completed = False\<rparr>,
                  \<lparr>title = ''Review code'', completed = True\<rparr>]\<rparr>)] ! 1
     = ''  1. '' @ hollow_circle @ '' Write unit tests'' \<and>
   list_tasks ''Alice''
     [(''Emma'', \<lparr>name = ''Emma'', tasks = []\<rparr>),
      (''Alice'', \<lparr>name = ''Alice'',
         tasks = [\<lparr>title = ''Write unit tests'', completed = False\<rparr>,
                  \<lparr>title = ''Review code'', completed = True\<rparr>]\<rparr>)] ! 2
     = ''  2. '' @ check_mark @ '' Review code''"
proof -
  let ?alice = "\<lparr>name = ''Alice'',
         tasks = [\<lparr>title = ''Write unit tests'', completed = False\<rparr>,
                  \<lparr>title = ''Review code'', completed = True\<rparr>]\<rparr>"
  let ?emma = "\<lparr>name = ''Emma'', tasks = []\<rparr>"
  let ?reg = "[(''Emma'', ?emma), (''Alice'', ?alice)]"
  have ga: "users_get ?reg ''Alice'' = Some ?alice" by (simp add: users_get_def)
  have ge: "users_get ?reg ''Emma'' = Some ?emma" by (simp add: users_get_def)
  from list_tasks_output [OF ge]
  have e: "list_tasks ''Emma'' ?reg = [''Emma has no tasks.'']" by simp
  from list_tasks_output [OF ga]
  have all: "\<forall>i<2. list_tasks ''Alice'' ?reg ! Suc i =
               ''  '' @ str_nat (Suc i) @ ''. '' @
               (if completed (tasks ?alice ! i) then check_mark else hollow_circle) @
               '' '' @ title (tasks ?alice ! i)"
    by simp
  from all[rule_format, of 0]
  have l1: "list_tasks ''Alice'' ?reg ! 1 = ''  1. '' @ hollow_circle @ '' Write unit tests''"
    by (simp add: str_nat_digit)
  from all[rule_format, of 1]
  have l2: "list_tasks ''Alice'' ?reg ! 2 = ''  2. '' @ check_mark @ '' Review code''"
    by (simp add: str_nat_digit numeral_2_eq_2)
  from ga e l1 l2 show ?thesis by blast
qed

lemma list_users_nth:
  assumes "i < length reg"
  shows "list_users reg ! Suc i = ''  '' @ bullet @ '' '' @ User_str (snd (reg ! i))"
proof -
  from assms have "reg \<noteq> []" by auto
  with assms show ?thesis
    by (simp add: list_users_def case_prod_beta)
qed

text \<open>
  Claim C10. On a registry that is not empty, \<^verbatim>\<open>list_users\<close> prints the header (after a
  line feed) and then, for each entry in the order of the registry, the bullet line with
  the user's name and the number of the user's tasks. The order of the registry is the
  order in which user names were first added: \<^verbatim>\<open>add_task\<close> puts a new name at the end, and
  no command moves or removes a name.
\<close>

theorem list_users_output:
  "(reg \<noteq> [] \<longrightarrow>
      length (list_users reg) = Suc (length reg) \<and>
      list_users reg ! 0 = line_feed @ ''All users:'' \<and>
      (\<forall>i<length reg.
         list_users reg ! Suc i =
           ''  '' @ bullet @ '' User: '' @ name (snd (reg ! i)) @ '' ('' @
           str_nat (length (tasks (snd (reg ! i)))) @ '' tasks)'')) \<and>
   map fst (fst (dispatch c reg)) =
     (case c of
        AddTask u t \<Rightarrow> if u \<in> set (map fst reg) then map fst reg else map fst reg @ [u]
      | _ \<Rightarrow> map fst reg)"
proof -
  have len: "length (list_users reg) = Suc (length reg)" if "reg \<noteq> []"
    using that by (simp add: list_users_def)
  have hdr: "list_users reg ! 0 = line_feed @ ''All users:''" if "reg \<noteq> []"
    using that by (simp add: list_users_def)
  have lines: "\<forall>i<length reg.
            list_users reg ! Suc i =
              ''  '' @ bullet @ '' User: '' @ name (snd (reg ! i)) @ '' ('' @
              str_nat (length (tasks (snd (reg ! i)))) @ '' tasks)''"
    by (simp add: list_users_nth User_str_def)
  from len hdr lines keys_dispatch[of c reg] show ?thesis by blast
qed

theorem list_users_output_witness:
  "[(''Alice'', \<lparr>name = ''Alice'', tasks = [\<lparr>title = ''Write unit tests'', completed = True\<rparr>,
                                          \<lparr>title = ''Review code'', completed = False\<rparr>]\<rparr>),
    (''Bob'', \<lparr>name = ''Bob'', tasks = [\<lparr>title = ''Deploy application'', completed = False\<rparr>]\<rparr>)]
     \<noteq> [] \<and>
   list_users
     [(''Alice'', \<lparr>name = ''Alice'', tasks = [\<lparr>title = ''Write unit tests'', completed = True\<rparr>,
                                            \<lparr>title = ''Review code'', completed = False\<rparr>]\<rparr>),
      (''Bob'', \<lparr>name = ''Bob'', tasks = [\<lparr>title = ''Deploy application'', completed = False\<rparr>]\<rparr>)]
     ! 1 = ''  '' @ bullet @ '' User: Alice (2 tasks)'' \<and>
   list_users
     [(''Alice'', \<lparr>name = ''Alice'', tasks = [\<lparr>title = ''Write unit tests'', completed = True\<rparr>,
                                            \<lparr>title = ''Review code'', completed = False\<rparr>]\<rparr>),
      (''Bob'', \<lparr>name = ''Bob'', tasks = [\<lparr>title = ''Deploy application'', completed = False\<rparr>]\<rparr>)]
     ! 2 = ''  '' @ bullet @ '' User: Bob (1 tasks)'' \<and>
   map fst (fst (dispatch (AddTask ''Carol'' ''Plan'')
     [(''Alice'', \<lparr>name = ''Alice'', tasks = [\<lparr>title = ''Write unit tests'', completed = True\<rparr>,
                                            \<lparr>title = ''Review code'', completed = False\<rparr>]\<rparr>),
      (''Bob'', \<lparr>name = ''Bob'', tasks = [\<lparr>title = ''Deploy application'', completed = False\<rparr>]\<rparr>)]))
     = [''Alice'', ''Bob'', ''Carol'']"
proof -
  let ?reg = "[(''Alice'', \<lparr>name = ''Alice'', tasks = [\<lparr>title = ''Write unit tests'', completed = True\<rparr>,
                                            \<lparr>title = ''Review code'', completed = False\<rparr>]\<rparr>),
      (''Bob'', \<lparr>name = ''Bob'', tasks = [\<lparr>title = ''Deploy application'', completed = False\<rparr>]\<rparr>)]"
  note t = list_users_output [where reg = ?reg and c = "AddTask ''Carol'' ''Plan''"]
  from t have all: "\<forall>i<2. list_users ?reg ! Suc i =
           ''  '' @ bullet @ '' User: '' @ name (snd (?reg ! i)) @ '' ('' @
           str_nat (length (tasks (snd (?reg ! i)))) @ '' tasks)''"
    by simp
  from all[rule_format, of 0]
  have l1: "list_users ?reg ! 1 = ''  '' @ bullet @ '' User: Alice (2 tasks)''"
    by (simp add: str_nat_digit)
  from all[rule_format, of 1]
  have l2: "list_users ?reg ! 2 = ''  '' @ bullet @ '' User: Bob (1 tasks)''"
    by (simp add: str_nat_digit numeral_2_eq_2)
  from t have k: "map fst (fst (dispatch (AddTask ''Carol'' ''Plan'') ?reg)) = [''Alice'', ''Bob'', ''Carol'']"
    by simp
  from l1 l2 k show ?thesis by simp
qed

subsection \<open>Invariants of the registry\<close>

text \<open>
  Claim C7. The registry holds at most one user per user name, and each of the four
  commands keeps it so and removes no name. A command for a user name that is present
  works on the stored user: \<^verbatim>\<open>add_task\<close> adds no entry and appends to the tasks that user
  already had, \<^verbatim>\<open>complete_task\<close> adds no entry and keeps the user's name and number of
  tasks.
\<close>

theorem registry_one_user_per_name:
  assumes "distinct (map fst reg)"
  shows "distinct (map fst (fst (dispatch c reg))) \<and>
         set (map fst reg) \<subseteq> set (map fst (fst (dispatch c reg))) \<and>
         (\<forall>usr. users_get reg u = Some usr \<longrightarrow>
            map fst (fst (add_task u t reg)) = map fst reg \<and>
            users_get (fst (add_task u t reg)) u =
              Some (usr\<lparr>tasks := tasks usr @ [Task_init t]\<rparr>) \<and>
            map fst (fst (complete_task u t reg)) = map fst reg \<and>
            (\<exists>usr'. users_get (fst (complete_task u t reg)) u = Some usr' \<and>
                    name usr' = name usr \<and> length (tasks usr') = length (tasks usr)))"
proof -
  have a: "distinct (map fst (fst (dispatch c reg)))"
    using assms by (simp add: keys_dispatch split: command.splits)
  have b: "set (map fst reg) \<subseteq> set (map fst (fst (dispatch c reg)))"
    by (auto simp: keys_dispatch split: command.splits)
  have d: "map fst (fst (add_task u t reg)) = map fst reg \<and>
            users_get (fst (add_task u t reg)) u =
              Some (usr\<lparr>tasks := tasks usr @ [Task_init t]\<rparr>) \<and>
            map fst (fst (complete_task u t reg)) = map fst reg \<and>
            (\<exists>usr'. users_get (fst (complete_task u t reg)) u = Some usr' \<and>
                    name usr' = name usr \<and> length (tasks usr') = length (tasks usr))"
    if g: "users_get reg u = Some usr" for usr
  proof -
    from g have k: "u \<in> set (map fst reg)" by (rule users_get_Some_key)
    have 1: "map fst (fst (add_task u t reg)) = map fst reg"
      using keys_dispatch[of "AddTask u t" reg] k by simp
    have 2: "users_get (fst (add_task u t reg)) u = Some (usr\<lparr>tasks := tasks usr @ [Task_init t]\<rparr>)"
      using g by (simp add: fst_add_task users_get_set Task_init_def)
    have 3: "map fst (fst (complete_task u t reg)) = map fst reg"
      using keys_dispatch[of "CompleteTask u t" reg] by simp
    have 4: "\<exists>usr'. users_get (fst (complete_task u t reg)) u = Some usr' \<and>
                    name usr' = name usr \<and> length (tasks usr') = length (tasks usr)"
      using g by (auto simp: complete_task_eq users_get_set split: option.splits)
    from 1 2 3 4 show ?thesis by blast
  qed
  from a b d show ?thesis by blast
qed

theorem registry_one_user_per_name_witness:
  "distinct (map fst [(''Alice'', \<lparr>name = ''Alice'', tasks = [\<lparr>title = ''Write unit tests'', completed = False\<rparr>]\<rparr>)]) \<and>
   distinct (map fst (fst (dispatch (AddTask ''Bob'' ''Deploy'')
     [(''Alice'', \<lparr>name = ''Alice'', tasks = [\<lparr>title = ''Write unit tests'', completed = False\<rparr>]\<rparr>)]))) \<and>
   users_get [(''Alice'', \<lparr>name = ''Alice'', tasks = [\<lparr>title = ''Write unit tests'', completed = False\<rparr>]\<rparr>)] ''Alice''
     = Some \<lparr>name = ''Alice'', tasks = [\<lparr>title = ''Write unit tests'', completed = False\<rparr>]\<rparr> \<and>
   map fst (fst (add_task ''Alice'' ''Review code''
     [(''Alice'', \<lparr>name = ''Alice'', tasks = [\<lparr>title = ''Write unit tests'', completed = False\<rparr>]\<rparr>)]))
     = [''Alice''] \<and>
   users_get (fst (add_task ''Alice'' ''Review code''
     [(''Alice'', \<lparr>name = ''Alice'', tasks = [\<lparr>title = ''Write unit tests'', completed = False\<rparr>]\<rparr>)])) ''Alice''
     = Some \<lparr>name = ''Alice'', tasks = [\<lparr>title = ''Write unit tests'', completed = False\<rparr>,
                                       \<lparr>title = ''Review code'', completed = False\<rparr>]\<rparr>"
proof -
  let ?alice = "\<lparr>name = ''Alice'', tasks = [\<lparr>title = ''Write unit tests'', completed = False\<rparr>]\<rparr>"
  have d: "distinct (map fst [(''Alice'', ?alice)])" by simp
  have g: "users_get [(''Alice'', ?alice)] ''Alice'' = Some ?alice" by (simp add: users_get_def)
  from d g
    registry_one_user_per_name [OF d, where c = "AddTask ''Bob'' ''Deploy''"
      and u = "''Alice''" and t = "''Review code''"]
  show ?thesis by (simp add: Task_init_def)
qed

text \<open>
  Claim C8. The title of a task never changes: \<^verbatim>\<open>complete\<close> keeps it, \<^verbatim>\<open>User.add_task\<close>
  keeps the titles of the tasks the user had, and after any of the four commands every
  user of the registry is still there with the same titles at the same positions.
  \<^verbatim>\<open>__str__\<close>, \<^verbatim>\<open>get_task_by_title\<close> and \<^verbatim>\<open>list_tasks\<close> assign no field at all, which is
  why their models return no task.
\<close>

theorem task_titles_never_change:
  "title (fst (Task_complete tk)) = title tk \<and>
   map title (take (length (tasks usr)) (tasks (fst (User_add_task usr tk')))) =
     map title (tasks usr) \<and>
   (users_get reg u = Some usr \<longrightarrow>
      (\<exists>usr'. users_get (fst (dispatch c reg)) u = Some usr' \<and>
              map title (take (length (tasks usr)) (tasks usr')) = map title (tasks usr)))"
  using dispatch_keeps_user[of reg u usr c]
  by (auto simp: Task_complete_def User_add_task_def)

theorem task_titles_never_change_witness:
  "users_get [(''Bob'', \<lparr>name = ''Bob'', tasks = [\<lparr>title = ''Deploy'', completed = False\<rparr>]\<rparr>)] ''Bob''
     = Some \<lparr>name = ''Bob'', tasks = [\<lparr>title = ''Deploy'', completed = False\<rparr>]\<rparr> \<and>
   (\<exists>usr'. users_get (fst (dispatch (CompleteTask ''Bob'' ''Deploy'')
               [(''Bob'', \<lparr>name = ''Bob'', tasks = [\<lparr>title = ''Deploy'', completed = False\<rparr>]\<rparr>)]))
             ''Bob'' = Some usr' \<and>
           map title (take 1 (tasks usr')) = [''Deploy''])"
proof -
  let ?bob = "\<lparr>name = ''Bob'', tasks = [\<lparr>title = ''Deploy'', completed = False\<rparr>]\<rparr>"
  have g: "users_get [(''Bob'', ?bob)] ''Bob'' = Some ?bob" by (simp add: users_get_def)
  from g
    task_titles_never_change [where reg = "[(''Bob'', ?bob)]" and u = "''Bob''" and usr = ?bob
      and c = "CompleteTask ''Bob'' ''Deploy''"]
  show ?thesis by simp
qed

end
